theory Spec2Isabelle
  imports Main
begin

section \<open>Service supervision: readiness watcher, dispatcher, status resolution\<close>

text \<open>
  A shallow embedding of \<^verbatim>\<open>middlewared/plugins/service.py\<close>: the thread class
  \<^verbatim>\<open>StartNotify\<close> and the methods \<^verbatim>\<open>query\<close>, \<^verbatim>\<open>start\<close>, \<^verbatim>\<open>started\<close>,
  \<^verbatim>\<open>stop\<close>, \<^verbatim>\<open>restart\<close>, \<^verbatim>\<open>reload\<close>, \<^verbatim>\<open>_get_status\<close>, \<^verbatim>\<open>_simplecmd\<close>,
  \<^verbatim>\<open>_system\<close>, \<^verbatim>\<open>_started_notify\<close> and \<^verbatim>\<open>_started\<close> of \<^verbatim>\<open>ServiceService\<close>.

  A Python name with a leading underscore is written with the prefix \<open>u_\<close>
  (\<^verbatim>\<open>_started\<close> is \<open>u_started\<close>), since an Isabelle name starts with a letter.

  Time is counted in ticks of a tenth of a time unit, so that \<^verbatim>\<open>time.sleep(1)\<close> is 10 ticks
  and \<^verbatim>\<open>time.sleep(0.1)\<close> is 1 tick. No decision of the code computes with a time value.
\<close>

subsection \<open>Strings as Python reads them\<close>

text \<open>
  The output of \<^verbatim>\<open>pgrep\<close> is ASCII text. \<^verbatim>\<open>str.strip()\<close> removes the white space of
  \<^verbatim>\<open>str.isspace\<close> at both ends (for ASCII: the codes 9 to 13, 28 to 32), \<^verbatim>\<open>split('\n')\<close>
  cuts at every line feed and keeps empty pieces, \<^verbatim>\<open>isdigit()\<close> holds of a non-empty
  string of decimal digits, and \<^verbatim>\<open>int\<close> reads such a string in base ten.
\<close>

definition isspace :: "char \<Rightarrow> bool" where
  "isspace c = ((9 \<le> (of_char c :: nat) \<and> (of_char c :: nat) \<le> 13)
                \<or> (28 \<le> (of_char c :: nat) \<and> (of_char c :: nat) \<le> 32))"

definition strip :: "string \<Rightarrow> string" where
  "strip s = rev (dropWhile isspace (rev (dropWhile isspace s)))"

fun split_nl :: "string \<Rightarrow> string list" where
  "split_nl [] = [[]]"
| "split_nl (c # cs) =
     (if c = CHR 0x0A then [] # split_nl cs
      else (case split_nl cs of [] \<Rightarrow> [[c]] | x # xs \<Rightarrow> (c # x) # xs))"

definition isdigit :: "string \<Rightarrow> bool" where
  "isdigit s = (s \<noteq> [] \<and> list_all (\<lambda>c. 48 \<le> (of_char c :: nat) \<and> (of_char c :: nat) \<le> 57) s)"

definition py_int :: "string \<Rightarrow> int" where
  "py_int s = foldl (\<lambda>a c. 10 * a + (int (of_char c) - 48)) 0 s"

text \<open>The truth value of \<^verbatim>\<open>None\<close> and of the empty string is false.\<close>

fun truthy :: "string option \<Rightarrow> bool" where
  "truthy None = False"
| "truthy (Some s) = (s \<noteq> [])"

text \<open>\<^verbatim>\<open>'{}'.format(x)\<close> of a string or of \<^verbatim>\<open>None\<close>.\<close>

fun py_format :: "string option \<Rightarrow> string" where
  "py_format None = ''None''"
| "py_format (Some s) = s"

subsection \<open>The environment and the state of a call\<close>

text \<open>
  The file system and the shell are outside the program. The model reads them through
  two oracles indexed by time: \<open>fs t p\<close> is the size of the file at path \<open>p\<close> at
  tick \<open>t\<close> (\<open>None\<close> when no file is there), and \<open>shell t cmd\<close> is what running
  \<open>cmd\<close> from tick \<open>t\<close> gives: the return code, the standard output, and how long
  \<^verbatim>\<open>communicate()\<close> waits for it.
\<close>

record proc =
  returncode :: int
  stdout :: string
  duration :: nat

record env =
  fs :: "nat \<Rightarrow> string \<Rightarrow> nat option"
  shell :: "nat \<Rightarrow> string \<Rightarrow> proc"

text \<open>
  What a call does to the outside is recorded in a trace: hooks called, log lines,
  processes opened (\<^verbatim>\<open>Popen\<close>), threads started and joined.
\<close>

datatype event =
    Hook string string
  | Debug string
  | Popen string
  | ThreadStart string "string option"
  | ThreadJoin

record world =
  now :: nat
  trace :: "event list"

definition emit :: "event \<Rightarrow> world \<Rightarrow> world" where
  "emit e w = w\<lparr>trace := trace w @ [e]\<rparr>"

definition is_Popen :: "event \<Rightarrow> bool" where
  "is_Popen e = (case e of Popen c \<Rightarrow> True | _ \<Rightarrow> False)"

definition commands :: "world \<Rightarrow> event list" where
  "commands w = filter is_Popen (trace w)"

subsection \<open>The table of services\<close>

definition SERVICE_DEFS_items :: "(string \<times> (string option \<times> string option)) list" where
  "SERVICE_DEFS_items =
    [(''ssh'', (Some ''sshd'', Some ''/var/run/sshd.pid'')),
     (''rsync'', (Some ''rsync'', Some ''/var/run/rsyncd.pid'')),
     (''nfs'', (Some ''nfsd'', None)),
     (''afp'', (Some ''netatalk'', None)),
     (''cifs'', (Some ''smbd'', Some ''/var/run/samba/smbd.pid'')),
     (''dynamicdns'', (Some ''inadyn-mt'', None)),
     (''snmp'', (Some ''snmpd'', Some ''/var/run/net_snmpd.pid'')),
     (''ftp'', (Some ''proftpd'', Some ''/var/run/proftpd.pid'')),
     (''tftp'', (Some ''inetd'', Some ''/var/run/inetd.pid'')),
     (''iscsitarget'', (Some ''ctld'', Some ''/var/run/ctld.pid'')),
     (''lldp'', (Some ''ladvd'', Some ''/var/run/ladvd.pid'')),
     (''ups'', (Some ''upsd'', Some ''/var/db/nut/upsd.pid'')),
     (''upsmon'', (Some ''upsmon'', Some ''/var/db/nut/upsmon.pid'')),
     (''smartd'', (Some ''smartd'', Some ''/var/run/smartd.pid'')),
     (''webshell'', (None, Some ''/var/run/webshell.pid'')),
     (''webdav'', (Some ''httpd'', Some ''/var/run/httpd.pid'')),
     (''backup'', (None, Some ''/var/run/backup.pid''))]"

definition SERVICE_DEFS :: "string \<rightharpoonup> (string option \<times> string option)" where
  "SERVICE_DEFS = map_of SERVICE_DEFS_items"

subsection \<open>StartNotify: the readiness watcher\<close>

text \<open>
  A \<^verbatim>\<open>StartNotify\<close> thread holds its marker file and verb; \<open>sn_started\<close> is the tick
  at which \<^verbatim>\<open>start()\<close> was called on it. The thread only sleeps and reads the file system,
  so what it does is a function of the environment and of that tick.
\<close>

record StartNotify =
  sn_pidfile :: "string option"
  sn_verb :: string
  sn_started :: nat

text \<open>
  One pass through the body of the \<^verbatim>\<open>while\<close> loop, entered at tick \<open>t\<close>: the sleep of one
  time unit, then the test of the verb's condition. The result says whether the pass
  reached \<^verbatim>\<open>break\<close>, and the tick at which it ended.
\<close>

definition attempt :: "env \<Rightarrow> string \<Rightarrow> string \<Rightarrow> nat \<Rightarrow> bool \<times> nat" where
  "attempt e verb pidfile t =
     (let t1 = t + 10 in
      if verb \<in> set [''start'', ''restart''] then
        (let t2 = (if fs e t1 pidfile \<noteq> None then t1 + 1 else t1) in
         (case fs e t2 pidfile of
            None \<Rightarrow> (False, t2)
          | Some st_size \<Rightarrow> (st_size > 0, t2)))
      else if verb = ''stop'' \<and> fs e t1 pidfile = None then (True, t1)
      else (False, t1))"

text \<open>
  The loop \<^verbatim>\<open>while tries < 6\<close>. It returns the final value of \<^verbatim>\<open>tries\<close>, the number of
  passes made, whether it left through \<^verbatim>\<open>break\<close>, and the tick at which it ended.
\<close>

function run_loop :: "env \<Rightarrow> string \<Rightarrow> string \<Rightarrow> nat \<Rightarrow> nat \<Rightarrow> nat \<Rightarrow> nat \<times> nat \<times> bool \<times> nat" where
  "run_loop e verb pidfile tries polls t =
     (if tries < 6 then
        (case attempt e verb pidfile t of
           (True, t') \<Rightarrow> (tries, polls + 1, True, t')
         | (False, t') \<Rightarrow> run_loop e verb pidfile (tries + 1) (polls + 1) t')
      else (tries, polls, False, t))"
  by pat_completeness auto
termination
  by (relation "measure (\<lambda>(e, verb, pidfile, tries, polls, t). 6 - tries)") auto

record watch =
  w_polls :: nat
  w_ready :: bool
  w_finish :: nat

definition run :: "env \<Rightarrow> StartNotify \<Rightarrow> watch" where
  "run e sn =
     (if \<not> truthy (sn_pidfile sn) then
        \<lparr>w_polls = 0, w_ready = False, w_finish = sn_started sn\<rparr>
      else
        (case run_loop e (sn_verb sn) (the (sn_pidfile sn)) 1 0 (sn_started sn) of
           (tries, polls, broke, t) \<Rightarrow> \<lparr>w_polls = polls, w_ready = broke, w_finish = t\<rparr>))"

text \<open>
  \<^verbatim>\<open>Thread.join()\<close> returns when the thread has ended: at once when it already has,
  otherwise at the tick \<open>run\<close> ends.
\<close>

definition join :: "env \<Rightarrow> StartNotify \<Rightarrow> world \<Rightarrow> world" where
  "join e sn w = emit ThreadJoin (w\<lparr>now := max (now w) (w_finish (run e sn))\<rparr>)"

subsection \<open>Running commands and looking for processes\<close>

text \<open>
  \<^verbatim>\<open>_system\<close> opens a shell on the command, waits for it and returns its return code.
\<close>

definition u_system :: "env \<Rightarrow> string \<Rightarrow> world \<Rightarrow> int \<times> world" where
  "u_system e cmd w =
     (let p = shell e (now w) cmd in
      (returncode p, emit (Popen cmd) (w\<lparr>now := now w + duration p\<rparr>)))"

text \<open>
  \<^verbatim>\<open>_started_notify\<close>: the first step, a watcher thread for a service of the table.
\<close>

definition u_started_notify :: "string \<Rightarrow> string \<Rightarrow> world \<Rightarrow> StartNotify option \<times> world" where
  "u_started_notify verb what w =
     (case SERVICE_DEFS what of
        Some (procname, pidfile) \<Rightarrow>
          (Some \<lparr>sn_pidfile = pidfile, sn_verb = verb, sn_started = now w\<rparr>,
           emit (ThreadStart verb pidfile) w)
      | None \<Rightarrow> (None, w))"

text \<open>
  \<^verbatim>\<open>_started\<close>: the second step. It joins the watcher when there is one, runs
  \<^verbatim>\<open>pgrep\<close> and reads the process ids from its output.
\<close>

definition pgrep_cmd :: "string option \<Rightarrow> string option \<Rightarrow> string" where
  "pgrep_cmd procname pidfile =
     (if truthy pidfile then
        ''/bin/pgrep -F '' @ py_format pidfile @ (if truthy procname then '' '' @ the procname else [])
      else ''/bin/pgrep '' @ py_format procname)"

definition parse_pids :: "string \<Rightarrow> int list" where
  "parse_pids data = map py_int (filter isdigit (split_nl (strip data)))"

definition u_started :: "env \<Rightarrow> string \<Rightarrow> StartNotify option \<Rightarrow> world \<Rightarrow> (bool \<times> int list) \<times> world" where
  "u_started e what notify w =
     (case SERVICE_DEFS what of
        Some (procname, pidfile) \<Rightarrow>
          (let w1 = (case notify of Some sn \<Rightarrow> join e sn w | None \<Rightarrow> w);
               pgrep = pgrep_cmd procname pidfile;
               p = shell e (now w1) pgrep;
               w2 = emit (Popen pgrep) (w1\<lparr>now := now w1 + duration p\<rparr>)
           in if returncode p = 0 then ((True, parse_pids (stdout p)), w2)
              else ((False, []), w2))
      | None \<Rightarrow> ((False, []), w))"

subsection \<open>Service entries and status resolution\<close>

text \<open>
  A service entry is the dictionary the datastore gives for one service. The code reads
  its keys \<^verbatim>\<open>service\<close> and \<^verbatim>\<open>enable\<close> and writes its keys \<^verbatim>\<open>state\<close> and \<^verbatim>\<open>pids\<close>,
  which an entry does not have before (\<open>None\<close>). Python dictionaries are objects: the
  store maps the address of each entry to its contents, and the code passes addresses.
\<close>

record entry =
  service :: string
  enable :: bool
  state :: "string option"
  pids :: "int list option"

type_synonym addr = nat
type_synonym store = "addr \<Rightarrow> entry"

definition u_get_status :: "env \<Rightarrow> addr \<Rightarrow> store \<Rightarrow> world \<Rightarrow> addr \<times> store \<times> world" where
  "u_get_status e a st w =
     (case u_started e (service (st a)) None w of
        ((running, ps), w') \<Rightarrow>
          (let new_state = (if running then ''RUNNING''
                            else if enable (st a) then ''CRASHED'' else ''STOPPED'')
           in (a, st(a := (st a)\<lparr>state := Some new_state, pids := Some ps\<rparr>), w')))"

subsection \<open>The aggregate query\<close>

text \<open>
  \<^verbatim>\<open>datastore.query\<close> gives a list of entries, or one entry when a single service was
  asked for; \<^verbatim>\<open>query\<close> wraps the latter in a list.
\<close>

datatype query_result = Single addr | Many "addr list"

text \<open>
  \<^verbatim>\<open>query\<close> spawns one greenlet per entry, each running \<^verbatim>\<open>_get_status\<close>, and waits for
  them with \<^verbatim>\<open>gevent.joinall(..., timeout=15)\<close>. The greenlets start at the same tick and
  wait for their \<^verbatim>\<open>pgrep\<close> side by side. \<open>spawn_joinall e d\<close> gives the dictionary
  \<^verbatim>\<open>jobs\<close> (in insertion order, as Python dictionaries keep it) as it stands when
  \<^verbatim>\<open>joinall\<close> returns with deadline \<open>d\<close>: a greenlet that has returned by then has
  written its entry and holds it as \<^verbatim>\<open>value\<close>; one still running has written nothing
  and its \<^verbatim>\<open>value\<close> is \<^verbatim>\<open>None\<close>.
\<close>

record greenlet =
  g_value :: "addr option"
  g_finish :: nat

fun spawn_joinall :: "env \<Rightarrow> nat \<Rightarrow> addr list \<Rightarrow> store \<Rightarrow> world \<Rightarrow> (greenlet \<times> addr) list \<times> store \<times> world" where
  "spawn_joinall e d [] st w = ([], st, w)"
| "spawn_joinall e d (a # as) st w =
     (case u_get_status e a st w of
        (r, st1, w1) \<Rightarrow>
          (if now w1 \<le> d then
             (case spawn_joinall e d as st1 (w1\<lparr>now := now w\<rparr>) of
                (jobs, st', w') \<Rightarrow> ((\<lparr>g_value = Some r, g_finish = now w1\<rparr>, a) # jobs, st', w'))
           else
             (case spawn_joinall e d as st (w1\<lparr>now := now w\<rparr>) of
                (jobs, st', w') \<Rightarrow> ((\<lparr>g_value = None, g_finish = now w1\<rparr>, a) # jobs, st', w'))))"

text \<open>
  The inner function \<^verbatim>\<open>result\<close>: a greenlet without a value has its entry (the one
  \<^verbatim>\<open>jobs\<close> holds for it) marked \<^verbatim>\<open>UNKNOWN\<close>.
\<close>

definition result :: "greenlet \<times> addr \<Rightarrow> store \<Rightarrow> addr \<times> store" where
  "result job st =
     (case g_value (fst job) of
        None \<Rightarrow>
          (let entry = snd job
           in (entry, st(entry := (st entry)\<lparr>state := Some ''UNKNOWN'', pids := Some []\<rparr>)))
      | Some v \<Rightarrow> (v, st))"

fun map_result :: "(greenlet \<times> addr) list \<Rightarrow> store \<Rightarrow> addr list \<times> store" where
  "map_result [] st = ([], st)"
| "map_result (j # js) st =
     (case result j st of
        (x, st1) \<Rightarrow> (case map_result js st1 of (xs, st') \<Rightarrow> (x # xs, st')))"

text \<open>
  \<^verbatim>\<open>filter_list\<close> is a function of \<^verbatim>\<open>middlewared.utils\<close>; \<open>query\<close> takes it (with the
  caller's filters and options) as the parameter \<open>filter_list\<close>. The deadline is 150
  ticks after the call.
\<close>

definition query :: "(addr list \<Rightarrow> store \<Rightarrow> 'r) \<Rightarrow> env \<Rightarrow> query_result \<Rightarrow> store \<Rightarrow> world \<Rightarrow> 'r \<times> store \<times> world" where
  "query filter_list e found st w =
     (let services = (case found of Many xs \<Rightarrow> xs | Single x \<Rightarrow> [x]);
          d = now w + 150
      in case spawn_joinall e d services st w of
           (jobs, st1, w1) \<Rightarrow>
             (let w2 = w1\<lparr>now := min d (foldr max (map (\<lambda>j. g_finish (fst j)) jobs) (now w))\<rparr>
              in case map_result jobs st1 of
                   (services', st2) \<Rightarrow> (filter_list services' st2, st2, w2)))"

text \<open>
  \<^verbatim>\<open>joinall\<close> does not stop the greenlets it gave up waiting for. \<open>late e t0 jobs st\<close> is
  the store once those greenlets, spawned at tick \<open>t0\<close>, have returned as well.
\<close>

fun late :: "env \<Rightarrow> nat \<Rightarrow> (greenlet \<times> addr) list \<Rightarrow> store \<Rightarrow> store" where
  "late e t0 [] st = st"
| "late e t0 (j # js) st =
     (case g_value (fst j) of
        None \<Rightarrow> late e t0 js (fst (snd (u_get_status e (snd j) st \<lparr>now = t0, trace = []\<rparr>)))
      | Some v \<Rightarrow> late e t0 js st)"

subsection \<open>The dispatcher\<close>

text \<open>
  Python values that the dispatcher's methods return, and the exceptions they raise.
  A result is the value or the exception, with the world as the call left it.
\<close>

datatype pyval = VNone | VBool bool | VTuple bool "int list" | VDict entry

datatype error = ValueError string | OtherError string

type_synonym bound_method = "world \<Rightarrow> (error + pyval) \<times> world"

text \<open>
  \<^verbatim>\<open>getattr(self, name, None)\<close>: the instance is its attribute lookup. The methods named
  \<^verbatim>\<open>_<action>_<what>\<close> are the table of commands per service, which the model does not
  look into.
\<close>

type_synonym object = "string \<Rightarrow> bound_method option"

definition class_methods :: "string list" where
  "class_methods =
    [''query'', ''update'', ''start'', ''started'', ''stop'', ''restart'', ''reload'',
     ''_get_status'', ''_simplecmd'', ''_system'', ''_started_notify'', ''_started'',
     ''_start_webdav'', ''_stop_webdav'', ''_restart_webdav'', ''_reload_webdav'',
     ''_restart_django'', ''_start_webshell'', ''_start_backup'', ''_restart_webshell'',
     ''_restart_iscsitarget'', ''_start_iscsitarget'', ''_stop_iscsitarget'',
     ''_reload_iscsitarget'', ''_start_collectd'', ''_restart_collectd'', ''_start_sysctl'',
     ''_reload_sysctl'', ''_start_network'', ''_stop_jails'', ''_start_jails'',
     ''_restart_jails'', ''_stop_pbid'', ''_start_pbid'', ''_restart_pbid'', ''_reload_named'',
     ''_reload_hostname'', ''_reload_resolvconf'', ''_reload_networkgeneral'',
     ''_reload_timeservices'', ''_restart_smartd'', ''_reload_ssh'', ''_start_ssh'',
     ''_stop_ssh'', ''_restart_ssh'', ''_reload_rsync'', ''_restart_rsync'', ''_start_rsync'',
     ''_stop_rsync'', ''_started_nis'', ''_start_nis'', ''_restart_nis'', ''_stop_nis'',
     ''_started_ldap'', ''_start_ldap'', ''_stop_ldap'', ''_restart_ldap'', ''_start_lldp'',
     ''_stop_lldp'', ''_restart_lldp'', ''_clear_activedirectory_config'', ''_started_nt4'',
     ''_start_nt4'', ''_restart_nt4'', ''_stop_nt4'', ''_started_activedirectory'',
     ''_start_activedirectory'', ''_stop_activedirectory'', ''_restart_activedirectory'',
     ''_started_domaincontroller'', ''_start_domaincontroller'', ''_stop_domaincontroller'',
     ''_restart_domaincontroller'', ''_restart_syslogd'', ''_start_syslogd'', ''_stop_syslogd'',
     ''_reload_syslogd'', ''_start_tftp'', ''_reload_tftp'', ''_restart_tftp'', ''_restart_cron'',
     ''_start_motd'', ''_start_ttys'', ''_reload_ftp'', ''_restart_ftp'', ''_start_ftp'',
     ''_stop_ftp'', ''_start_ups'', ''_stop_ups'', ''_restart_ups'', ''_started_ups'',
     ''_load_afp'', ''_start_afp'', ''_stop_afp'', ''_restart_afp'', ''_reload_afp'',
     ''_reload_nfs'', ''_restart_nfs'', ''_stop_nfs'', ''_start_nfs'', ''_force_stop_jail'',
     ''_start_plugins'', ''_stop_plugins'', ''_restart_plugins'', ''_started_plugins'',
     ''_restart_dynamicdns'', ''_restart_system'', ''_stop_system'', ''_reload_cifs'',
     ''_restart_cifs'', ''_start_cifs'', ''_stop_cifs'', ''_start_snmp'', ''_stop_snmp'',
     ''_restart_snmp'', ''_restart_http'', ''_reload_http'', ''_reload_loader'',
     ''_start_loader'', ''_ServiceService__saver_loaded'', ''_start_saver'', ''_stop_saver'',
     ''_restart_saver'', ''_reload_disk'', ''_reload_user'', ''_restart_system_datasets'']"

text \<open>
  The instance of the class whose methods have the bodies \<open>body\<close>: an attribute is
  found exactly when the class defines a method of that name.
\<close>

definition ServiceService :: "(string \<Rightarrow> bound_method) \<Rightarrow> object" where
  "ServiceService body name = (if name \<in> set class_methods then Some (body name) else None)"

definition call_hook :: "string \<Rightarrow> string \<Rightarrow> world \<Rightarrow> world" where
  "call_hook name svc w = emit (Hook name svc) w"

definition u_simplecmd :: "object \<Rightarrow> env \<Rightarrow> string \<Rightarrow> string \<Rightarrow> world \<Rightarrow> (error + unit) \<times> world" where
  "u_simplecmd self e action what w =
     (let w1 = emit (Debug (''Calling: '' @ action @ ''('' @ what @ '') '')) w in
      case self (''_'' @ action @ ''_'' @ what) of
        None \<Rightarrow>
          (let what' = (case SERVICE_DEFS what of
                          Some (procname, pidfile) \<Rightarrow> if truthy procname then the procname else what
                        | None \<Rightarrow> what)
           in if action \<in> set [''start'', ''stop'', ''restart'', ''reload''] then
                (let w2 = (if action = ''restart''
                           then snd (u_system e (''/usr/sbin/service '' @ what' @ '' forcestop '') w1)
                           else w1);
                     w3 = snd (u_system e (''/usr/sbin/service '' @ what' @ '' '' @ action) w2)
                 in (Inr (), w3))
              else (Inl (ValueError ''Internal error: Unknown command''), w1))
      | Some f \<Rightarrow>
          (case f w1 of
             (Inl err, w2) \<Rightarrow> (Inl err, w2)
           | (Inr v, w2) \<Rightarrow> (Inr (), w2)))"

definition started :: "object \<Rightarrow> env \<Rightarrow> string \<Rightarrow> StartNotify option \<Rightarrow> world \<Rightarrow> (error + pyval) \<times> world" where
  "started self e what sn w =
     (case self (''_started_'' @ what) of
        Some f \<Rightarrow> f w
      | None \<Rightarrow>
          (case u_started e what sn w of
             ((running, ps), w') \<Rightarrow> (Inr (VBool running), w')))"

definition start :: "object \<Rightarrow> env \<Rightarrow> string \<Rightarrow> world \<Rightarrow> (error + pyval) \<times> world" where
  "start self e svc w =
     (let w1 = call_hook ''service.pre_start'' svc w in
      case u_started_notify ''start'' svc w1 of
        (sn, w2) \<Rightarrow>
          (case u_simplecmd self e ''start'' svc w2 of
             (Inl err, w3) \<Rightarrow> (Inl err, w3)
           | (Inr u, w3) \<Rightarrow> started self e svc sn w3))"

definition stop :: "object \<Rightarrow> env \<Rightarrow> string \<Rightarrow> world \<Rightarrow> (error + pyval) \<times> world" where
  "stop self e svc w =
     (let w1 = call_hook ''service.pre_stop'' svc w in
      case u_started_notify ''stop'' svc w1 of
        (sn, w2) \<Rightarrow>
          (case u_simplecmd self e ''stop'' svc w2 of
             (Inl err, w3) \<Rightarrow> (Inl err, w3)
           | (Inr u, w3) \<Rightarrow> started self e svc sn w3))"

definition restart :: "object \<Rightarrow> env \<Rightarrow> string \<Rightarrow> world \<Rightarrow> (error + pyval) \<times> world" where
  "restart self e svc w =
     (let w1 = call_hook ''service.pre_restart'' svc w in
      case u_started_notify ''restart'' svc w1 of
        (sn, w2) \<Rightarrow>
          (case u_simplecmd self e ''restart'' svc w2 of
             (Inl err, w3) \<Rightarrow> (Inl err, w3)
           | (Inr u, w3) \<Rightarrow> started self e svc sn w3))"

text \<open>
  \<^verbatim>\<open>reload\<close>: any exception of \<^verbatim>\<open>_simplecmd\<close> is caught (a bare \<^verbatim>\<open>except\<close>) and
  answered with \<^verbatim>\<open>restart\<close>, whose value is dropped and whose exception is not caught.
\<close>

definition reload :: "object \<Rightarrow> env \<Rightarrow> string \<Rightarrow> world \<Rightarrow> (error + pyval) \<times> world" where
  "reload self e svc w =
     (let w1 = call_hook ''service.pre_reload'' svc w in
      case u_simplecmd self e ''reload'' svc w1 of
        (Inr u, w2) \<Rightarrow> started self e svc None w2
      | (Inl err, w2) \<Rightarrow>
          (case restart self e svc w2 of
             (Inl err', w3) \<Rightarrow> (Inl err', w3)
           | (Inr v, w3) \<Rightarrow> started self e svc None w3))"

text \<open>
  How often \<^verbatim>\<open>restart\<close> was entered for a service: each call announces itself with
  the hook \<^verbatim>\<open>service.pre_restart\<close>.
\<close>

definition restarts :: "string \<Rightarrow> world \<Rightarrow> nat" where
  "restarts svc w = count_list (trace w) (Hook ''service.pre_restart'' svc)"

subsection \<open>Scenarios\<close>

text \<open>
  Concrete environments, entries and worlds on which the theorems below are run.
  In \<open>sshd_env\<close> no marker file exists and \<^verbatim>\<open>pgrep\<close> finds one \<^verbatim>\<open>sshd\<close> process, 714,
  after two ticks; every other command fails at once.
\<close>

definition sshd_shell :: "nat \<Rightarrow> string \<Rightarrow> proc" where
  "sshd_shell t cmd =
     (if cmd = ''/bin/pgrep -F /var/run/sshd.pid sshd''
      then \<lparr>returncode = 0, stdout = [CHR ''7'', CHR ''1'', CHR ''4'', CHR 0x0A], duration = 2\<rparr>
      else \<lparr>returncode = 1, stdout = [], duration = 0\<rparr>)"

definition sshd_env :: env where
  "sshd_env = \<lparr>fs = (\<lambda>t p. None), shell = sshd_shell\<rparr>"

definition ssh_entry :: entry where
  "ssh_entry = \<lparr>service = ''ssh'', enable = True, state = None, pids = None\<rparr>"

definition world0 :: world where
  "world0 = \<lparr>now = 0, trace = []\<rparr>"

text \<open>
  In \<open>marker_env\<close> the marker file of \<^verbatim>\<open>sshd\<close> appears, with content, three ticks
  after the start. In \<open>stuck_env\<close> every file exists with content at all times, and in
  \<open>hollow_env\<close> every file exists and stays empty.
\<close>

definition marker_env :: env where
  "marker_env = \<lparr>fs = (\<lambda>t p. if 3 \<le> t \<and> p = ''/var/run/sshd.pid'' then Some 4 else None),
                 shell = sshd_shell\<rparr>"

definition stuck_env :: env where
  "stuck_env = \<lparr>fs = (\<lambda>t p. Some 4), shell = sshd_shell\<rparr>"

definition hollow_env :: env where
  "hollow_env = \<lparr>fs = (\<lambda>t p. Some 0), shell = sshd_shell\<rparr>"

text \<open>
  In \<open>smartd_env\<close> the marker file of \<^verbatim>\<open>smartd\<close> appears, with content, three ticks
  after the start, \<^verbatim>\<open>pgrep\<close> then finds the process 812, and every other command
  succeeds after five ticks.
\<close>

definition smartd_shell :: "nat \<Rightarrow> string \<Rightarrow> proc" where
  "smartd_shell t cmd =
     (if cmd = ''/bin/pgrep -F /var/run/smartd.pid smartd''
      then \<lparr>returncode = 0, stdout = [CHR ''8'', CHR ''1'', CHR ''2'', CHR 0x0A], duration = 2\<rparr>
      else \<lparr>returncode = 0, stdout = [], duration = 5\<rparr>)"

definition smartd_env :: env where
  "smartd_env = \<lparr>fs = (\<lambda>t p. if 3 \<le> t \<and> p = ''/var/run/smartd.pid'' then Some 4 else None),
                 shell = smartd_shell\<rparr>"

text \<open>
  Method bodies for the scenarios. \<open>timeservices_down\<close> gives \<^verbatim>\<open>_reload_timeservices\<close>
  its three commands and then the exception of its datastore query, which fails here.
  The scenarios call no other method of the table; those have an empty body.
\<close>

definition timeservices_down :: "env \<Rightarrow> string \<Rightarrow> bound_method" where
  "timeservices_down e name w =
     (if name = ''_reload_timeservices'' then
        (let w1 = snd (u_system e ''/usr/sbin/service ix-localtime quietstart'' w);
             w2 = snd (u_system e ''/usr/sbin/service ix-ntpd quietstart'' w1);
             w3 = snd (u_system e ''/usr/sbin/service ntpd restart'' w2)
         in (Inl (OtherError ''datastore.query''), w3))
      else (Inr VNone, w))"

definition no_body :: "string \<Rightarrow> bound_method" where
  "no_body name w = (Inr VNone, w)"

section \<open>Status resolution\<close>

lemma u_started_not_running:
  "u_started e what notify w = ((False, ps), w1) \<Longrightarrow> ps = []"
  by (auto simp: u_started_def Let_def split: option.splits prod.splits if_splits)

lemma u_started_running_iff:
  "u_started e what None w = ((running, ps), w1) \<Longrightarrow>
   running = (case SERVICE_DEFS what of
                None \<Rightarrow> False
              | Some (procname, pidfile) \<Rightarrow>
                  returncode (shell e (now w) (pgrep_cmd procname pidfile)) = 0)"
  by (auto simp: u_started_def Let_def split: option.splits prod.splits if_splits)

lemma u_started_matched:
  "u_started e what None w = ((True, ps), w1) \<Longrightarrow>
   (\<exists>procname pidfile. SERVICE_DEFS what = Some (procname, pidfile) \<and>
      ps = parse_pids (stdout (shell e (now w) (pgrep_cmd procname pidfile))))"
  by (auto simp: u_started_def Let_def split: option.splits prod.splits if_splits)

text \<open>
  C1. \<^verbatim>\<open>_get_status\<close> classifies a service from two facts only: whether the process
  lookup of \<^verbatim>\<open>_started\<close> found a process, and the entry's \<^verbatim>\<open>enable\<close> flag. Found: state
  \<^verbatim>\<open>RUNNING\<close> and the matched process ids. Not found: \<^verbatim>\<open>CRASHED\<close> when enabled,
  \<^verbatim>\<open>STOPPED\<close> when not, and in both cases an empty list of process ids. A process is
  found exactly when the service is in the table and its \<^verbatim>\<open>pgrep\<close> returns 0.
\<close>

theorem get_status_resolution:
  assumes "u_get_status e a st w = (r, st', w')"
      and "u_started e (service (st a)) None w = ((running, matched), w1)"
  shows "state (st' a) = Some (if running then ''RUNNING''
                               else if enable (st a) then ''CRASHED'' else ''STOPPED'')
       \<and> pids (st' a) = Some (if running then matched else [])
       \<and> running = (case SERVICE_DEFS (service (st a)) of
                None \<Rightarrow> False
              | Some (procname, pidfile) \<Rightarrow>
                  returncode (shell e (now w) (pgrep_cmd procname pidfile)) = 0)"
proof -
  have empty: "\<not> running \<Longrightarrow> matched = []"
    using assms(2) u_started_not_running by (cases running) auto
  have "st' = st(a := (st a)\<lparr>state := Some (if running then ''RUNNING''
                               else if enable (st a) then ''CRASHED'' else ''STOPPED''),
                             pids := Some matched\<rparr>)"
    using assms by (auto simp: u_get_status_def Let_def)
  then have "state (st' a) = Some (if running then ''RUNNING''
                               else if enable (st a) then ''CRASHED'' else ''STOPPED'')"
        and "pids (st' a) = Some matched"
    by simp_all
  moreover have "running = (case SERVICE_DEFS (service (st a)) of
                None \<Rightarrow> False
              | Some (procname, pidfile) \<Rightarrow>
                  returncode (shell e (now w) (pgrep_cmd procname pidfile)) = 0)"
    using assms(2) by (rule u_started_running_iff)
  ultimately show ?thesis using empty by simp
qed

lemma sshd_started:
  "u_started sshd_env ''ssh'' None world0 =
     ((True, [714]), \<lparr>now = 2, trace = [Popen ''/bin/pgrep -F /var/run/sshd.pid sshd'']\<rparr>)"
  by (simp add: u_started_def SERVICE_DEFS_def SERVICE_DEFS_items_def pgrep_cmd_def
      sshd_env_def sshd_shell_def world0_def emit_def parse_pids_def strip_def isspace_def
      isdigit_def py_int_def Let_def)

lemma sshd_get_status:
  "u_get_status sshd_env 0 (\<lambda>a. ssh_entry) world0 =
    (0, (\<lambda>a. ssh_entry)(0 := ssh_entry\<lparr>state := Some ''RUNNING'', pids := Some [714]\<rparr>),
     \<lparr>now = 2, trace = [Popen ''/bin/pgrep -F /var/run/sshd.pid sshd'']\<rparr>)"
  by (simp add: u_get_status_def sshd_started ssh_entry_def)

theorem get_status_resolution_witness:
  "state (fst (snd (u_get_status sshd_env 0 (\<lambda>a. ssh_entry) world0)) 0) = Some ''RUNNING''
   \<and> pids (fst (snd (u_get_status sshd_env 0 (\<lambda>a. ssh_entry) world0)) 0) = Some [714]"
proof -
  have lookup: "u_started sshd_env (service ((\<lambda>a. ssh_entry) 0)) None world0 =
      ((True, [714]), \<lparr>now = 2, trace = [Popen ''/bin/pgrep -F /var/run/sshd.pid sshd'']\<rparr>)"
    by (simp add: ssh_entry_def sshd_started)
  from get_status_resolution [OF sshd_get_status lookup]
  show ?thesis by (simp add: sshd_get_status)
qed

section \<open>The readiness watcher\<close>

lemma attempt_tick:
  "snd (attempt e verb p t) = t + 10 \<or> snd (attempt e verb p t) = t + 11"
  by (auto simp: attempt_def Let_def split: option.splits)

lemma attempt_start:
  assumes "verb = ''start'' \<or> verb = ''restart''"
  shows "snd (attempt e verb p t) = t + 10 + (if fs e (t + 10) p \<noteq> None then 1 else 0)"
    and "fst (attempt e verb p t) = (\<exists>n. fs e (snd (attempt e verb p t)) p = Some n \<and> 0 < n)"
  using assms by (auto simp: attempt_def Let_def split: option.splits)

lemma attempt_stop:
  "snd (attempt e ''stop'' p t) = t + 10"
  "fst (attempt e ''stop'' p t) = (fs e (t + 10) p = None)"
  by (auto simp: attempt_def Let_def)

lemma attempt_other:
  "verb \<noteq> ''start'' \<Longrightarrow> verb \<noteq> ''restart'' \<Longrightarrow> verb \<noteq> ''stop'' \<Longrightarrow> \<not> fst (attempt e verb p t)"
  by (auto simp: attempt_def Let_def)

lemma run_loop_break:
  "run_loop e verb p tries polls t = (tries', polls', broke, t') \<Longrightarrow>
   (broke \<longrightarrow> (\<exists>k. tries + k < 6
        \<and> fst (attempt e verb p (((\<lambda>u. snd (attempt e verb p u)) ^^ k) t))
        \<and> (\<forall>j<k. \<not> fst (attempt e verb p (((\<lambda>u. snd (attempt e verb p u)) ^^ j) t)))
        \<and> tries' = tries + k \<and> polls' = polls + k + 1
        \<and> t' = snd (attempt e verb p (((\<lambda>u. snd (attempt e verb p u)) ^^ k) t))))
   \<and> (\<not> broke \<longrightarrow> (\<forall>k. tries + k < 6 \<longrightarrow>
          \<not> fst (attempt e verb p (((\<lambda>u. snd (attempt e verb p u)) ^^ k) t)))
        \<and> tries' = max tries 6 \<and> polls' = polls + (6 - tries)
        \<and> t' = ((\<lambda>u. snd (attempt e verb p u)) ^^ (6 - tries)) t)"
proof (induction e verb p tries polls t arbitrary: tries' polls' broke t' rule: run_loop.induct)
  case (1 e verb p tries polls t)
  let ?f = "\<lambda>u. snd (attempt e verb p u)"
  show ?case
  proof (cases "tries < 6")
    case False
    with "1.prems" show ?thesis by (simp add: max_def)
  next
    case lt: True
    obtain b t1 where att: "attempt e verb p t = (b, t1)" by (cases "attempt e verb p t")
    show ?thesis
    proof (cases b)
      case True
      with lt att "1.prems" have "tries' = tries" "polls' = polls + 1" "broke" "t' = t1"
        by simp_all
      with lt att True show ?thesis
        by (intro conjI impI; (rule exI[of _ 0])?) simp_all
    next
      case False
      with lt att "1.prems"
      have rec: "run_loop e verb p (tries + 1) (polls + 1) t1 = (tries', polls', broke, t')"
        by simp
      note IH = "1.IH"[OF lt att[symmetric] _ rec] 
      have t1: "t1 = ?f t" using att by simp
      have shift: "(?f ^^ k) t1 = (?f ^^ Suc k) t" for k
        unfolding t1 using funpow_swap1 [of ?f k t] by simp
      show ?thesis
      proof (rule conjI; rule impI)
        assume broke
        with IH False obtain k where k: "tries + 1 + k < 6"
          "fst (attempt e verb p ((?f ^^ k) t1))"
          "\<forall>j<k. \<not> fst (attempt e verb p ((?f ^^ j) t1))"
          "tries' = tries + 1 + k" "polls' = polls + 1 + k + 1"
          "t' = snd (attempt e verb p ((?f ^^ k) t1))"
          by auto
        have "\<forall>j<Suc k. \<not> fst (attempt e verb p ((?f ^^ j) t))"
        proof (intro allI impI)
          fix j assume "j < Suc k"
          show "\<not> fst (attempt e verb p ((?f ^^ j) t))"
          proof (cases j)
            case 0 then show ?thesis using att False by simp
          next
            case (Suc j')
            with \<open>j < Suc k\<close> k(3) have "\<not> fst (attempt e verb p ((?f ^^ j') t1))" by simp
            then show ?thesis unfolding shift Suc .
          qed
        qed
        with k show "\<exists>k. tries + k < 6
          \<and> fst (attempt e verb p ((?f ^^ k) t))
          \<and> (\<forall>j<k. \<not> fst (attempt e verb p ((?f ^^ j) t)))
          \<and> tries' = tries + k \<and> polls' = polls + k + 1
          \<and> t' = snd (attempt e verb p ((?f ^^ k) t))"
          unfolding shift by (intro exI[of _ "Suc k"]) simp
      next
        assume nb: "\<not> broke"
        with IH False have none: "\<forall>k. tries + 1 + k < 6 \<longrightarrow> \<not> fst (attempt e verb p ((?f ^^ k) t1))"
          and rest: "tries' = max (tries + 1) 6" "polls' = polls + 1 + (6 - (tries + 1))"
            "t' = (?f ^^ (6 - (tries + 1))) t1"
          by auto
        have "\<forall>k. tries + k < 6 \<longrightarrow> \<not> fst (attempt e verb p ((?f ^^ k) t))"
        proof (intro allI impI)
          fix k assume "tries + k < 6"
          show "\<not> fst (attempt e verb p ((?f ^^ k) t))"
          proof (cases k)
            case 0 then show ?thesis using att False by simp
          next
            case (Suc k')
            with \<open>tries + k < 6\<close> none have "\<not> fst (attempt e verb p ((?f ^^ k') t1))" by simp
            then show ?thesis unfolding shift Suc .
          qed
        qed
        moreover have "tries' = max tries 6" using rest lt by simp
        moreover have "polls' = polls + (6 - tries)" using rest lt by simp
        moreover have "t' = (?f ^^ (6 - tries)) t"
        proof -
          have "6 - tries = Suc (6 - (tries + 1))" using lt by simp
          then show ?thesis using rest(3) shift by simp
        qed
        ultimately show "(\<forall>k. tries + k < 6 \<longrightarrow> \<not> fst (attempt e verb p ((?f ^^ k) t)))
           \<and> tries' = max tries 6 \<and> polls' = polls + (6 - tries) \<and> t' = (?f ^^ (6 - tries)) t"
          by simp
      qed
    qed
  qed
qed

lemma run_loop_polls:
  "run_loop e verb p tries polls t = (tries', polls', broke, t') \<Longrightarrow>
   polls \<le> polls' \<and> polls' - polls \<le> 6 - tries
   \<and> t + 10 * (polls' - polls) \<le> t' \<and> t' \<le> t + 11 * (polls' - polls)"
proof (induction e verb p tries polls t arbitrary: tries' polls' broke t' rule: run_loop.induct)
  case (1 e verb p tries polls t)
  show ?case
  proof (cases "tries < 6")
    case False
    with "1.prems" show ?thesis by simp
  next
    case lt: True
    obtain b t1 where att: "attempt e verb p t = (b, t1)" by (cases "attempt e verb p t")
    have t1: "t1 = t + 10 \<or> t1 = t + 11"
      using attempt_tick [of e verb p t] att by simp
    show ?thesis
    proof (cases b)
      case True
      with lt att "1.prems" have "polls' = polls + 1" "t' = t1" by simp_all
      with t1 lt show ?thesis by auto
    next
      case False
      with lt att "1.prems"
      have rec: "run_loop e verb p (tries + 1) (polls + 1) t1 = (tries', polls', broke, t')"
        by simp
      from "1.IH" [OF lt att [symmetric] _ rec] False
      have "polls + 1 \<le> polls'" "polls' - (polls + 1) \<le> 6 - (tries + 1)"
        "t1 + 10 * (polls' - (polls + 1)) \<le> t'" "t' \<le> t1 + 11 * (polls' - (polls + 1))"
        by simp_all
      with t1 lt show ?thesis by auto
    qed
  qed
qed

text \<open>
  C4. One pass of the watcher over a marker file \<open>p\<close>, entered at tick \<open>t\<close>, sleeps
  one time unit (10 ticks). For \<^verbatim>\<open>start\<close> and \<^verbatim>\<open>restart\<close> it waits one more tick
  (0.1 time unit) when the file exists after the sleep, and succeeds exactly when the file
  then exists with a size above zero. For \<^verbatim>\<open>stop\<close> it succeeds exactly when the file
  does not exist after the sleep. The watcher stops early exactly when one of its five
  passes succeeds, and it stops at the first that does.
\<close>

theorem watcher_poll_condition:
  assumes "truthy (Some p)"
  shows "(verb \<in> {''start'', ''restart''} \<longrightarrow>
            snd (attempt e verb p t) = t + 10 + (if fs e (t + 10) p \<noteq> None then 1 else 0)
          \<and> fst (attempt e verb p t) = (\<exists>n. fs e (snd (attempt e verb p t)) p = Some n \<and> 0 < n))
       \<and> (verb = ''stop'' \<longrightarrow>
            snd (attempt e verb p t) = t + 10
          \<and> fst (attempt e verb p t) = (fs e (t + 10) p = None))
       \<and> w_ready (run e \<lparr>sn_pidfile = Some p, sn_verb = verb, sn_started = t\<rparr>) =
            (\<exists>k<5. fst (attempt e verb p (((\<lambda>u. snd (attempt e verb p u)) ^^ k) t)))
       \<and> (w_ready (run e \<lparr>sn_pidfile = Some p, sn_verb = verb, sn_started = t\<rparr>) \<longrightarrow>
            (\<exists>k<5. fst (attempt e verb p (((\<lambda>u. snd (attempt e verb p u)) ^^ k) t))
               \<and> (\<forall>j<k. \<not> fst (attempt e verb p (((\<lambda>u. snd (attempt e verb p u)) ^^ j) t)))
               \<and> w_polls (run e \<lparr>sn_pidfile = Some p, sn_verb = verb, sn_started = t\<rparr>) = k + 1
               \<and> w_finish (run e \<lparr>sn_pidfile = Some p, sn_verb = verb, sn_started = t\<rparr>) =
                   snd (attempt e verb p (((\<lambda>u. snd (attempt e verb p u)) ^^ k) t))))"
proof -
  let ?f = "\<lambda>u. snd (attempt e verb p u)"
  let ?sn = "\<lparr>sn_pidfile = Some p, sn_verb = verb, sn_started = t\<rparr>"
  obtain tries' polls' broke t' where loop: "run_loop e verb p 1 0 t = (tries', polls', broke, t')"
    by (cases "run_loop e verb p 1 0 t") auto
  from assms loop have r: "run e ?sn = \<lparr>w_polls = polls', w_ready = broke, w_finish = t'\<rparr>"
    by (simp add: run_def)
  note brk = run_loop_break [OF loop]
  have ready_iff: "broke = (\<exists>k<5. fst (attempt e verb p ((?f ^^ k) t)))"
  proof (cases broke)
    case True
    with brk obtain k where "1 + k < 6" "fst (attempt e verb p ((?f ^^ k) t))" by blast
    then have "\<exists>k<5. fst (attempt e verb p ((?f ^^ k) t))" by (intro exI [of _ k]) simp
    with True show ?thesis by simp
  next
    case False
    with brk have "\<forall>k. 1 + k < 6 \<longrightarrow> \<not> fst (attempt e verb p ((?f ^^ k) t))" by blast
    then have "\<not> (\<exists>k<5. fst (attempt e verb p ((?f ^^ k) t)))" by auto
    with False show ?thesis by simp
  qed
  have first: "broke \<longrightarrow> (\<exists>k<5. fst (attempt e verb p ((?f ^^ k) t))
               \<and> (\<forall>j<k. \<not> fst (attempt e verb p ((?f ^^ j) t)))
               \<and> polls' = k + 1 \<and> t' = snd (attempt e verb p ((?f ^^ k) t)))"
  proof
    assume broke
    with brk obtain k where k: "1 + k < 6" "fst (attempt e verb p ((?f ^^ k) t))"
      "\<forall>j<k. \<not> fst (attempt e verb p ((?f ^^ j) t))" "polls' = 0 + k + 1"
      "t' = snd (attempt e verb p ((?f ^^ k) t))" by blast
    then show "\<exists>k<5. fst (attempt e verb p ((?f ^^ k) t))
               \<and> (\<forall>j<k. \<not> fst (attempt e verb p ((?f ^^ j) t)))
               \<and> polls' = k + 1 \<and> t' = snd (attempt e verb p ((?f ^^ k) t))"
      by (intro exI [of _ k]) simp
  qed
  have a: "verb \<in> {''start'', ''restart''} \<longrightarrow>
            snd (attempt e verb p t) = t + 10 + (if fs e (t + 10) p \<noteq> None then 1 else 0)
          \<and> fst (attempt e verb p t) = (\<exists>n. fs e (snd (attempt e verb p t)) p = Some n \<and> 0 < n)"
    using attempt_start [of verb e p t] by auto
  have b: "verb = ''stop'' \<longrightarrow>
            snd (attempt e verb p t) = t + 10
          \<and> fst (attempt e verb p t) = (fs e (t + 10) p = None)"
    using attempt_stop [of e p t] by auto
  show ?thesis
    unfolding r using a b ready_iff first by simp
qed

lemma marker_run:
  "run marker_env \<lparr>sn_pidfile = Some ''/var/run/sshd.pid'', sn_verb = ''start'', sn_started = 0\<rparr>
     = \<lparr>w_polls = 1, w_ready = True, w_finish = 11\<rparr>"
  by (simp add: run_def marker_env_def attempt_def Let_def)

theorem watcher_poll_condition_witness:
  "truthy (Some ''/var/run/sshd.pid'')
   \<and> fst (attempt marker_env ''start'' ''/var/run/sshd.pid'' 0)
   \<and> snd (attempt marker_env ''start'' ''/var/run/sshd.pid'' 0) = 11
   \<and> w_ready (run marker_env
        \<lparr>sn_pidfile = Some ''/var/run/sshd.pid'', sn_verb = ''start'', sn_started = 0\<rparr>)"
proof -
  have p: "truthy (Some ''/var/run/sshd.pid'')" by simp
  have f: "fs marker_env 10 ''/var/run/sshd.pid'' = Some 4"
    "fs marker_env 11 ''/var/run/sshd.pid'' = Some 4"
    by (simp_all add: marker_env_def)
  from watcher_poll_condition [OF p, of "''start''" marker_env 0] f
  have "snd (attempt marker_env ''start'' ''/var/run/sshd.pid'' 0) = 11"
    and "fst (attempt marker_env ''start'' ''/var/run/sshd.pid'' 0)"
    by simp_all
  with p marker_run show ?thesis by simp
qed

text \<open>
  C5, as stated, promises a first attempt and five retries. With a marker file that is
  never removed, a \<^verbatim>\<open>stop\<close> watcher gives up after five passes and 50 ticks: \<^verbatim>\<open>tries\<close>
  runs from 1 to 5.
\<close>

theorem watcher_six_attempts_counterexample:
  "\<not> w_ready (run stuck_env
        \<lparr>sn_pidfile = Some ''/var/run/sshd.pid'', sn_verb = ''stop'', sn_started = 0\<rparr>)
   \<and> w_polls (run stuck_env
        \<lparr>sn_pidfile = Some ''/var/run/sshd.pid'', sn_verb = ''stop'', sn_started = 0\<rparr>) = 5
   \<and> w_polls (run stuck_env
        \<lparr>sn_pidfile = Some ''/var/run/sshd.pid'', sn_verb = ''stop'', sn_started = 0\<rparr>) \<noteq> 1 + 5
   \<and> w_finish (run stuck_env
        \<lparr>sn_pidfile = Some ''/var/run/sshd.pid'', sn_verb = ''stop'', sn_started = 0\<rparr>) = 50"
  by (simp add: run_def stuck_env_def attempt_def Let_def)

text \<open>
  C5, amended. A watcher with a marker file makes at least one and at most five passes
  in all (four retries after the first). Each pass sleeps one time unit and at most a
  tenth more, so the watcher ends between 10 and 11 ticks per pass after its start, at
  most 5.5 time units. When the condition is never met it ends after exactly five
  passes; \<open>run\<close> is total and its result is a plain value, not an error.
\<close>

theorem watcher_attempts_bounded:
  assumes "truthy (sn_pidfile sn)"
  shows "1 \<le> w_polls (run e sn) \<and> w_polls (run e sn) \<le> 5
       \<and> (\<not> w_ready (run e sn) \<longrightarrow> w_polls (run e sn) = 5)
       \<and> sn_started sn + 10 * w_polls (run e sn) \<le> w_finish (run e sn)
       \<and> w_finish (run e sn) \<le> sn_started sn + 11 * w_polls (run e sn)"
proof -
  obtain tries' polls' broke t' where
    loop: "run_loop e (sn_verb sn) (the (sn_pidfile sn)) 1 0 (sn_started sn) = (tries', polls', broke, t')"
    by (cases "run_loop e (sn_verb sn) (the (sn_pidfile sn)) 1 0 (sn_started sn)") auto
  from assms loop have r: "run e sn = \<lparr>w_polls = polls', w_ready = broke, w_finish = t'\<rparr>"
    by (simp add: run_def)
  from run_loop_polls [OF loop]
  have bounds: "polls' \<le> 5" "sn_started sn + 10 * polls' \<le> t'" "t' \<le> sn_started sn + 11 * polls'"
    by simp_all
  from run_loop_break [OF loop]
  have exhausted: "\<not> broke \<longrightarrow> polls' = 5" and "broke \<longrightarrow> 1 \<le> polls'"
    by auto
  then have "1 \<le> polls'" by (cases broke) auto
  with bounds exhausted show ?thesis unfolding r by simp
qed

theorem watcher_attempts_bounded_witness:
  "truthy (sn_pidfile \<lparr>sn_pidfile = Some ''/var/run/sshd.pid'', sn_verb = ''start'', sn_started = 0\<rparr>)
   \<and> w_polls (run hollow_env
        \<lparr>sn_pidfile = Some ''/var/run/sshd.pid'', sn_verb = ''start'', sn_started = 0\<rparr>) = 5
   \<and> w_finish (run hollow_env
        \<lparr>sn_pidfile = Some ''/var/run/sshd.pid'', sn_verb = ''start'', sn_started = 0\<rparr>) = 55"
proof -
  let ?sn = "\<lparr>sn_pidfile = Some ''/var/run/sshd.pid'', sn_verb = ''start'', sn_started = 0\<rparr>"
  have p: "truthy (sn_pidfile ?sn)" by simp
  have nr: "\<not> w_ready (run hollow_env ?sn)"
    by (simp add: run_def hollow_env_def attempt_def Let_def)
  have fin: "w_finish (run hollow_env ?sn) = 55"
    by (simp add: run_def hollow_env_def attempt_def Let_def)
  from watcher_attempts_bounded [OF p, of hollow_env] nr
  have "w_polls (run hollow_env ?sn) = 5" by simp
  with p fin show ?thesis by simp
qed

lemma commands_emit:
  "commands (emit ev w) = commands w @ (if is_Popen ev then [ev] else [])"
  by (simp add: commands_def emit_def)

lemma commands_now [simp]: "commands (w\<lparr>now := t\<rparr>) = commands w"
  by (simp add: commands_def)

lemma now_emit [simp]: "now (emit ev w) = now w"
  by (simp add: emit_def)

text \<open>
  C7. For a service of the table without a marker file, the watcher that
  \<^verbatim>\<open>_started_notify\<close> starts makes no pass and ends at the tick it was started. Joining
  it at any later tick takes no time, so \<^verbatim>\<open>_started\<close> with the watcher gives the same
  answer at the same tick as without one, and the only command it runs is
  \<^verbatim>\<open>/bin/pgrep\<close> on the process name.
\<close>

theorem no_marker_no_wait:
  assumes "SERVICE_DEFS what = Some (procname, pidfile)"
      and "\<not> truthy pidfile"
      and "u_started_notify verb what w0 = (notify, w1)"
      and "now w0 \<le> now w"
  shows "(\<exists>sn. notify = Some sn
           \<and> w_polls (run e sn) = 0 \<and> w_finish (run e sn) = now w0
           \<and> now (join e sn w) = now w)
       \<and> fst (u_started e what notify w) = fst (u_started e what None w)
       \<and> now (snd (u_started e what notify w)) = now (snd (u_started e what None w))
       \<and> commands (snd (u_started e what notify w)) =
           commands w @ [Popen (''/bin/pgrep '' @ py_format procname)]"
proof -
  let ?sn = "\<lparr>sn_pidfile = pidfile, sn_verb = verb, sn_started = now w0\<rparr>"
  have sn: "notify = Some ?sn"
    using assms(1,3) by (auto simp: u_started_notify_def)
  have r: "run e ?sn = \<lparr>w_polls = 0, w_ready = False, w_finish = now w0\<rparr>"
    using assms(2) by (simp add: run_def)
  have j: "join e ?sn w = emit ThreadJoin w"
    using assms(4) by (simp add: join_def r max_def)
  have cmd: "pgrep_cmd procname pidfile = ''/bin/pgrep '' @ py_format procname"
    using assms(2) by (simp add: pgrep_cmd_def)
  have a: "\<exists>sn. notify = Some sn
           \<and> w_polls (run e sn) = 0 \<and> w_finish (run e sn) = now w0
           \<and> now (join e sn w) = now w"
    using sn r j by simp
  have b: "fst (u_started e what notify w) = fst (u_started e what None w)"
    using assms(1) by (simp add: u_started_def sn j Let_def)
  have c: "now (snd (u_started e what notify w)) = now (snd (u_started e what None w))"
    using assms(1) by (simp add: u_started_def sn j Let_def)
  have d: "commands (snd (u_started e what notify w)) =
           commands w @ [Popen (''/bin/pgrep '' @ py_format procname)]"
    using assms(1) by (simp add: u_started_def sn j cmd Let_def commands_emit is_Popen_def)
  from a b c d show ?thesis by simp
qed

lemma nfs_def: "SERVICE_DEFS ''nfs'' = Some (Some ''nfsd'', None)"
  by (simp add: SERVICE_DEFS_def SERVICE_DEFS_items_def)

theorem no_marker_no_wait_witness:
  "SERVICE_DEFS ''nfs'' = Some (Some ''nfsd'', None)
   \<and> \<not> truthy None
   \<and> now world0 \<le> now (world0\<lparr>now := 3\<rparr>)
   \<and> now (snd (u_started sshd_env ''nfs'' (fst (u_started_notify ''start'' ''nfs'' world0))
              (world0\<lparr>now := 3\<rparr>))) = 3
   \<and> commands (snd (u_started sshd_env ''nfs'' (fst (u_started_notify ''start'' ''nfs'' world0))
              (world0\<lparr>now := 3\<rparr>))) = [Popen ''/bin/pgrep nfsd'']"
proof -
  have m: "\<not> truthy None" by simp
  have n: "u_started_notify ''start'' ''nfs'' world0 =
             (fst (u_started_notify ''start'' ''nfs'' world0), snd (u_started_notify ''start'' ''nfs'' world0))"
    by simp
  have t: "now world0 \<le> now (world0\<lparr>now := 3\<rparr>)" by (simp add: world0_def)
  have plain: "now (snd (u_started sshd_env ''nfs'' None (world0\<lparr>now := 3\<rparr>))) = 3"
    by (simp add: u_started_def nfs_def pgrep_cmd_def sshd_env_def sshd_shell_def world0_def Let_def)
  have c0: "commands (world0\<lparr>now := 3\<rparr>) = []" by (simp add: commands_def world0_def)
  from no_marker_no_wait [OF nfs_def m n t, of sshd_env] plain c0
  show ?thesis using nfs_def t by simp
qed

section \<open>Services outside the table\<close>

text \<open>
  C10. For a name that \<^verbatim>\<open>SERVICE_DEFS\<close> does not hold and for which the instance has no
  \<^verbatim>\<open>_started_<name>\<close> method, \<^verbatim>\<open>_started\<close> returns \<^verbatim>\<open>(False, [])\<close> and \<^verbatim>\<open>started\<close>
  returns \<^verbatim>\<open>False\<close>, both leaving the world as it was (no process is opened), and
  \<^verbatim>\<open>_started_notify\<close> returns \<^verbatim>\<open>None\<close> without starting a thread.
\<close>

theorem unknown_service_not_started:
  assumes "SERVICE_DEFS what = None"
      and "self (''_started_'' @ what) = None"
  shows "u_started e what notify w = ((False, []), w)
       \<and> started self e what notify w = (Inr (VBool False), w)
       \<and> u_started_notify verb what w = (None, w)"
  using assms by (simp add: u_started_def started_def u_started_notify_def)

theorem unknown_service_not_started_witness:
  "SERVICE_DEFS ''cron'' = None
   \<and> ServiceService (\<lambda>name w. (Inr VNone, w)) (''_started_'' @ ''cron'') = None
   \<and> started (ServiceService (\<lambda>name w. (Inr VNone, w))) sshd_env ''cron'' None world0
        = (Inr (VBool False), world0)
   \<and> u_started_notify ''restart'' ''cron'' world0 = (None, world0)"
proof -
  have d: "SERVICE_DEFS ''cron'' = None"
    by (simp add: SERVICE_DEFS_def SERVICE_DEFS_items_def)
  have m: "ServiceService (\<lambda>name w. (Inr VNone, w)) (''_started_'' @ ''cron'') = None"
    by (simp add: ServiceService_def class_methods_def)
  from unknown_service_not_started
         [where what = "''cron''" and self = "ServiceService (\<lambda>name w. (Inr VNone, w))"
            and e = sshd_env and notify = None and w = world0 and verb = "''restart''", OF d m] d m
  show ?thesis by simp
qed

end
